theory Spec2Isabelle
  imports Main "HOL-Library.Word"
begin

unbundle bit_operations_syntax

section \<open>Domain model (internal/domain)\<close>

text \<open>
  Go's \<open>int64\<close> is a 64-bit word with wrapping arithmetic, read as two's complement by
  \<open>sint\<close>. \<open>TransactionType\<close>, \<open>TransactionStatus\<close> and \<open>UploadStatus\<close> are string types
  in the source, so any string can occur in a stored row. Instants of \<open>time.Time\<close> are
  abstract natural numbers; \<open>time.Now()\<close> is passed in as an argument.
\<close>

type_synonym int64 = "64 word"
type_synonym TransactionType = string
type_synonym TransactionStatus = string
type_synonym UploadStatus = string
type_synonym Time = nat

definition TransactionTypeCredit :: TransactionType where
  "TransactionTypeCredit = ''CREDIT''"

definition TransactionTypeDebit :: TransactionType where
  "TransactionTypeDebit = ''DEBIT''"

definition TransactionStatusSuccess :: TransactionStatus where
  "TransactionStatusSuccess = ''SUCCESS''"

definition TransactionStatusFailed :: TransactionStatus where
  "TransactionStatusFailed = ''FAILED''"

definition TransactionStatusPending :: TransactionStatus where
  "TransactionStatusPending = ''PENDING''"

definition UploadStatusProcessing :: UploadStatus where
  "UploadStatusProcessing = ''processing''"

definition UploadStatusCompleted :: UploadStatus where
  "UploadStatusCompleted = ''completed''"

definition UploadStatusFailed :: UploadStatus where
  "UploadStatusFailed = ''failed''"

record Transaction =
  Timestamp :: int64
  Counterparty :: string
  Type :: TransactionType
  Amount :: int64
  Status :: TransactionStatus
  Description :: string

text \<open>
  The counters \<open>ProcessedRows\<close>, \<open>TotalRows\<close> and the line numbers are Go \<open>int\<close>s that
  only ever count rows; they are integers here.
\<close>

record Upload =
  ID :: string
  UStatus :: UploadStatus
  ProcessedRows :: int
  TotalRows :: int
  CreatedAt :: Time
  CompletedAt :: "Time option"

record IssueTransaction =
  IssueTx :: Transaction
  IssueLine :: int

datatype error =
    ErrUploadNotFound
  | ErrInvalidPayloadType
  | ErrCanceled
  | ErrMaxRetries int error
  | ErrInvalidRecordFormat nat
  | ErrInvalidTimestamp
  | ErrInvalidAmount
  | ErrInvalidTransactionType string
  | ErrInvalidStatus string
  | PanicSliceBounds

section \<open>Ledger store (internal/storage/memory\_store.go)\<close>

record TransactionWithLine =
  Transaction :: Transaction
  LineNumber :: int

record MemoryStore =
  uploads :: "string \<rightharpoonup> Upload"
  transactions :: "string \<rightharpoonup> TransactionWithLine list"
  processedEvents :: "string \<rightharpoonup> bool"

definition NewMemoryStore :: MemoryStore where
  "NewMemoryStore =
     \<lparr>uploads = Map.empty, transactions = Map.empty, processedEvents = Map.empty\<rparr>"

text \<open>Every mutator returns the error result of the Go method and the store after it.\<close>

definition CreateUpload :: "MemoryStore \<Rightarrow> Time \<Rightarrow> string \<Rightarrow> error option \<times> MemoryStore" where
  "CreateUpload s now uploadID =
     (None,
      s\<lparr>uploads := (uploads s)(uploadID \<mapsto>
            \<lparr>ID = uploadID, UStatus = UploadStatusProcessing, ProcessedRows = 0,
             TotalRows = 0, CreatedAt = now, CompletedAt = None\<rparr>),
        transactions := (transactions s)(uploadID \<mapsto> [])\<rparr>)"

definition GetUpload :: "MemoryStore \<Rightarrow> string \<Rightarrow> error + Upload" where
  "GetUpload s uploadID =
     (case uploads s uploadID of None \<Rightarrow> Inl ErrUploadNotFound | Some upload \<Rightarrow> Inr upload)"

definition UpdateUploadStatus ::
  "MemoryStore \<Rightarrow> Time \<Rightarrow> string \<Rightarrow> UploadStatus \<Rightarrow> error option \<times> MemoryStore" where
  "UpdateUploadStatus s now uploadID status =
     (case uploads s uploadID of
        None \<Rightarrow> (Some ErrUploadNotFound, s)
      | Some upload \<Rightarrow>
          (None,
           s\<lparr>uploads := (uploads s)(uploadID \<mapsto>
              (if status = UploadStatusCompleted \<or> status = UploadStatusFailed
               then upload\<lparr>UStatus := status, CompletedAt := Some now\<rparr>
               else upload\<lparr>UStatus := status\<rparr>))\<rparr>))"

definition IncrementProcessedRows :: "MemoryStore \<Rightarrow> string \<Rightarrow> error option \<times> MemoryStore" where
  "IncrementProcessedRows s uploadID =
     (case uploads s uploadID of
        None \<Rightarrow> (Some ErrUploadNotFound, s)
      | Some upload \<Rightarrow>
          (None,
           s\<lparr>uploads := (uploads s)(uploadID \<mapsto>
              upload\<lparr>ProcessedRows := ProcessedRows upload + 1\<rparr>)\<rparr>))"

text \<open>
  Go's \<open>s.transactions[uploadID]\<close> on a missing key is the nil slice, to which
  \<open>append\<close> adds the first element.
\<close>

definition stored_transactions :: "MemoryStore \<Rightarrow> string \<Rightarrow> TransactionWithLine list" where
  "stored_transactions s uploadID =
     (case transactions s uploadID of None \<Rightarrow> [] | Some txs \<Rightarrow> txs)"

definition AddTransaction ::
  "MemoryStore \<Rightarrow> string \<Rightarrow> Transaction \<Rightarrow> int \<Rightarrow> error option \<times> MemoryStore" where
  "AddTransaction s uploadID tx lineNumber =
     (case uploads s uploadID of
        None \<Rightarrow> (Some ErrUploadNotFound, s)
      | Some _ \<Rightarrow>
          (None,
           s\<lparr>transactions := (transactions s)(uploadID \<mapsto>
              stored_transactions s uploadID @
                [\<lparr>Transaction = tx, LineNumber = lineNumber\<rparr>])\<rparr>))"

text \<open>The loop of \<open>GetBalance\<close>, with the running \<open>balance\<close> as accumulator.\<close>

fun balance_loop :: "int64 \<Rightarrow> TransactionWithLine list \<Rightarrow> int64" where
  "balance_loop balance [] = balance"
| "balance_loop balance (txWithLine # rest) =
     (let tx = Transaction txWithLine in
      balance_loop
        (if Status tx = TransactionStatusSuccess then
           (if Type tx = TransactionTypeCredit then balance + Amount tx
            else if Type tx = TransactionTypeDebit then balance - Amount tx
            else balance)
         else balance)
        rest)"

definition GetBalance :: "MemoryStore \<Rightarrow> string \<Rightarrow> error + int64" where
  "GetBalance s uploadID =
     (case uploads s uploadID of
        None \<Rightarrow> Inl ErrUploadNotFound
      | Some _ \<Rightarrow>
          (case transactions s uploadID of
             None \<Rightarrow> Inr 0
           | Some txs \<Rightarrow> Inr (balance_loop 0 txs)))"

text \<open>
  The balance as the specification words it: the sum, over the rows with status SUCCESS,
  of \<open>+amount\<close> for CREDIT and \<open>-amount\<close> for DEBIT, once in \<open>int64\<close> arithmetic and once
  over the mathematical integers.
\<close>

definition signed_amount :: "Transaction \<Rightarrow> int64" where
  "signed_amount tx =
     (if Type tx = TransactionTypeCredit then Amount tx
      else if Type tx = TransactionTypeDebit then - Amount tx
      else 0)"

definition is_success :: "TransactionWithLine \<Rightarrow> bool" where
  "is_success t = (Status (Transaction t) = TransactionStatusSuccess)"

definition spec_balance :: "TransactionWithLine list \<Rightarrow> int64" where
  "spec_balance txs =
     sum_list (map (\<lambda>t. signed_amount (Transaction t)) (filter is_success txs))"



text \<open>
  \<open>page\<close> and \<open>perPage\<close> are Go \<open>int\<close>s supplied by the caller (the HTTP handler passes
  on whatever \<open>strconv.Atoi\<close> accepted), taken here as 64-bit words: \<open>(page - 1) * perPage\<close>
  and \<open>start + perPage\<close> wrap. \<open>len(filtered)\<close> is the length of the list.
\<close>

type_synonym goint = "64 word"

text \<open>
  The slice expression \<open>a[lo:hi]\<close>: a run-time panic unless \<open>0 \<le> lo \<le> hi \<le> cap(a)\<close>.
  \<open>GetIssues\<close> only slices with \<open>hi \<le> len(a)\<close>, so the length stands for the capacity.
\<close>

definition slice :: "'a list \<Rightarrow> int \<Rightarrow> int \<Rightarrow> error + 'a list" where
  "slice xs lo hi =
     (if 0 \<le> lo \<and> lo \<le> hi \<and> hi \<le> int (length xs)
      then Inr (take (nat hi - nat lo) (drop (nat lo) xs))
      else Inl PanicSliceBounds)"

text \<open>The filter loop of \<open>GetIssues\<close>; \<open>status\<close> is the optional filter (a nil pointer is \<open>None\<close>).\<close>

fun issues_loop ::
  "TransactionStatus option \<Rightarrow> IssueTransaction list \<Rightarrow> TransactionWithLine list
     \<Rightarrow> IssueTransaction list" where
  "issues_loop status filtered [] = filtered"
| "issues_loop status filtered (txWithLine # rest) =
     (let tx = Transaction txWithLine in
      if (case status of None \<Rightarrow> False | Some st \<Rightarrow> Status tx \<noteq> st)
      then issues_loop status filtered rest
      else if Status tx = TransactionStatusFailed \<or> Status tx = TransactionStatusPending
      then issues_loop status
             (filtered @ [\<lparr>IssueTx = tx, IssueLine = LineNumber txWithLine\<rparr>]) rest
      else issues_loop status filtered rest)"

text \<open>
  Lines 170 to 189 of \<open>GetIssues\<close>: the page of the filtered list. The result is the
  item list with the total, or the panic of the slice expression.
\<close>

definition paginate ::
  "IssueTransaction list \<Rightarrow> goint \<Rightarrow> goint \<Rightarrow> error + (IssueTransaction list \<times> nat)" where
  "paginate filtered page perPage =
     (let total = length filtered;
          page1 = (if page <s 1 then 1 else page);
          perPage1 = (if perPage <s 1 then 10 else perPage);
          start = (page1 - 1) * perPage1;
          end0 = start + perPage1
      in if int total \<le> sint start then Inr ([], total)
         else
           (let end1 = (if int total < sint end0 then int total else sint end0)
            in case slice filtered (sint start) end1 of
                 Inl e \<Rightarrow> Inl e
               | Inr items \<Rightarrow> Inr (items, total)))"

definition GetIssues ::
  "MemoryStore \<Rightarrow> string \<Rightarrow> goint \<Rightarrow> goint \<Rightarrow> TransactionStatus option
     \<Rightarrow> error + (IssueTransaction list \<times> nat)" where
  "GetIssues s uploadID page perPage status =
     (case uploads s uploadID of
        None \<Rightarrow> Inl ErrUploadNotFound
      | Some _ \<Rightarrow>
          (case transactions s uploadID of
             None \<Rightarrow> Inr ([], 0)
           | Some txs \<Rightarrow> paginate (issues_loop status [] txs) page perPage))"

text \<open>
  \<open>s.processedEvents[eventID]\<close> reads a \<open>map[string]bool\<close>: \<open>false\<close> on a missing key.
\<close>

definition IsEventProcessed :: "MemoryStore \<Rightarrow> string \<Rightarrow> bool \<times> error option" where
  "IsEventProcessed s eventID =
     ((case processedEvents s eventID of None \<Rightarrow> False | Some b \<Rightarrow> b), None)"

definition MarkEventProcessed :: "MemoryStore \<Rightarrow> string \<Rightarrow> error option \<times> MemoryStore" where
  "MarkEventProcessed s eventID =
     (None, s\<lparr>processedEvents := (processedEvents s)(eventID \<mapsto> True)\<rparr>)"

text \<open>
  The mutating calls of the repository contract as data, and the store they leave behind
  when run in sequence from a given store (each call holds the write lock for its whole
  body, so a concurrent history is some such sequence).
\<close>

datatype store_op =
    OpCreateUpload Time string
  | OpUpdateUploadStatus Time string UploadStatus
  | OpIncrementProcessedRows string
  | OpAddTransaction string Transaction int
  | OpMarkEventProcessed string

fun apply_op :: "MemoryStore \<Rightarrow> store_op \<Rightarrow> MemoryStore" where
  "apply_op s (OpCreateUpload now uploadID) = snd (CreateUpload s now uploadID)"
| "apply_op s (OpUpdateUploadStatus now uploadID status) =
     snd (UpdateUploadStatus s now uploadID status)"
| "apply_op s (OpIncrementProcessedRows uploadID) = snd (IncrementProcessedRows s uploadID)"
| "apply_op s (OpAddTransaction uploadID tx lineNumber) =
     snd (AddTransaction s uploadID tx lineNumber)"
| "apply_op s (OpMarkEventProcessed eventID) = snd (MarkEventProcessed s eventID)"

definition run_ops :: "MemoryStore \<Rightarrow> store_op list \<Rightarrow> MemoryStore" where
  "run_ops s ops = foldl apply_op s ops"

text \<open>
  The issue list as the specification words it: the stored rows whose status is FAILED or
  PENDING, restricted to the filter's status when there is one, each with its line number.
\<close>

definition is_issue :: "TransactionStatus option \<Rightarrow> TransactionWithLine \<Rightarrow> bool" where
  "is_issue status t =
     ((Status (Transaction t) = TransactionStatusFailed
        \<or> Status (Transaction t) = TransactionStatusPending)
      \<and> (case status of None \<Rightarrow> True | Some st \<Rightarrow> Status (Transaction t) = st))"

definition to_issue :: "TransactionWithLine \<Rightarrow> IssueTransaction" where
  "to_issue t = \<lparr>IssueTx = Transaction t, IssueLine = LineNumber t\<rparr>"

definition spec_issues ::
  "TransactionStatus option \<Rightarrow> TransactionWithLine list \<Rightarrow> IssueTransaction list" where
  "spec_issues status txs = map to_issue (filter (is_issue status) txs)"

text \<open>The items of a \<open>GetIssues\<close> result, for putting pages end to end.\<close>

definition page_items :: "error + (IssueTransaction list \<times> nat) \<Rightarrow> IssueTransaction list" where
  "page_items r = (case r of Inl _ \<Rightarrow> [] | Inr (items, _) \<Rightarrow> items)"

section \<open>Events and the reconciliation consumer (internal/eventbus)\<close>

type_synonym EventType = string

definition EventTypeReconciliation :: EventType where
  "EventTypeReconciliation = ''reconciliation''"

record ReconciliationEvent =
  UploadID :: string
  EvTransaction :: Transaction
  EvLineNumber :: int

text \<open>
  \<open>Event.Payload\<close> is an \<open>interface{}\<close>; the consumer narrows it to \<open>ReconciliationEvent\<close>.
  \<open>OtherPayload\<close> stands for a value of any other dynamic type.
\<close>

datatype payload = ReconciliationPayload ReconciliationEvent | OtherPayload

record Event =
  EventID :: string
  EventType :: EventType
  Payload :: payload
  EventTimestamp :: Time
  Retries :: int

text \<open>
  \<open>ReconciliationConsumer.Consume\<close> on the in-memory store, the repository the server wires
  in. One call is taken as a unit: the four repository calls of one \<open>Consume\<close> run without
  another worker in between.
\<close>

definition Consume :: "MemoryStore \<Rightarrow> Event \<Rightarrow> error option \<times> MemoryStore" where
  "Consume s event =
     (case IsEventProcessed s (EventID event) of
        (_, Some err) \<Rightarrow> (Some err, s)
      | (processed, None) \<Rightarrow>
          if processed then (None, s)
          else
            (case Payload event of
               OtherPayload \<Rightarrow> (Some ErrInvalidPayloadType, s)
             | ReconciliationPayload payload \<Rightarrow>
                 (case AddTransaction s (UploadID payload) (EvTransaction payload)
                         (EvLineNumber payload) of
                    (Some err, s1) \<Rightarrow> (Some err, s1)
                  | (None, s1) \<Rightarrow>
                      (case MarkEventProcessed s1 (EventID event) of
                         (Some err, s2) \<Rightarrow> (Some err, s2)
                       | (None, s2) \<Rightarrow>
                           (None, snd (IncrementProcessedRows s2 (UploadID payload)))))))"

text \<open>Consuming the same event \<open>n\<close> times in a row: the results of the calls, and the store.\<close>

fun consume_times :: "nat \<Rightarrow> MemoryStore \<Rightarrow> Event \<Rightarrow> error option list \<times> MemoryStore" where
  "consume_times 0 s event = ([], s)"
| "consume_times (Suc n) s event =
     (case Consume s event of
        (r, s1) \<Rightarrow> (case consume_times n s1 event of (rs, s2) \<Rightarrow> (r # rs, s2)))"

text \<open>
  The store after one event has been applied once: one appended row, the event id in the
  processed set, one more processed row.
\<close>

definition applied_once ::
  "MemoryStore \<Rightarrow> Event \<Rightarrow> ReconciliationEvent \<Rightarrow> Upload \<Rightarrow> MemoryStore" where
  "applied_once s event p u =
     s\<lparr>transactions := (transactions s)(UploadID p \<mapsto>
          stored_transactions s (UploadID p) @
            [\<lparr>Transaction = EvTransaction p, LineNumber = EvLineNumber p\<rparr>]),
       processedEvents := (processedEvents s)(EventID event \<mapsto> True),
       uploads := (uploads s)(UploadID p \<mapsto> u\<lparr>ProcessedRows := ProcessedRows u + 1\<rparr>)\<rparr>"

section \<open>Event bus (internal/eventbus/bus.go)\<close>

text \<open>
  A Go channel of events as \<open>Publish\<close> meets it: the buffered events, the capacity, the
  number of workers parked in a receive, and the events handed straight to such workers.
  A send can proceed when a receiver is parked or the buffer has room.
\<close>

record Chan =
  buffer :: "Event list"
  capacity :: nat
  parked :: nat
  handed :: "Event list"



text \<open>The bus: a channel per event type, the worker counts of the subscribed consumers.\<close>

record eventBus =
  channels :: "EventType \<rightharpoonup> Chan"
  consumers :: "EventType \<rightharpoonup> nat list"
  channelBuffer :: nat
  started :: bool

definition Subscribe :: "eventBus \<Rightarrow> EventType \<Rightarrow> nat \<Rightarrow> error option \<times> eventBus" where
  "Subscribe eb eventType workerCount =
     (None,
      eb\<lparr>channels :=
           (case channels eb eventType of
              None \<Rightarrow> (channels eb)(eventType \<mapsto>
                \<lparr>buffer = [], capacity = channelBuffer eb, parked = 0, handed = []\<rparr>)
            | Some _ \<Rightarrow> channels eb),
         consumers :=
           (consumers eb)(eventType \<mapsto>
              (case consumers eb eventType of None \<Rightarrow> [] | Some cs \<Rightarrow> cs) @ [workerCount])\<rparr>)"



section \<open>Retry runner (pkg/retry/retry.go)\<close>

text \<open>
  \<open>time.Duration\<close> is an \<open>int64\<close> count of nanoseconds. \<open>attempt\<close> runs from 0 upwards
  and stays below \<open>MaxAttempts\<close>, so it is a natural number here and \<open>uint(attempt)\<close> is
  the number itself.
\<close>

type_synonym Duration = int64

definition Second :: Duration where
  "Second = 1000000000"

record Config =
  MaxAttempts :: int
  BaseDelay :: Duration
  MaxDelay :: Duration

text \<open>An \<open>Option\<close> is a function that updates the configuration in place.\<close>

type_synonym Option = "Config \<Rightarrow> Config"

definition WithMaxAttempts :: "int \<Rightarrow> Option" where
  "WithMaxAttempts attempts = (\<lambda>c. c\<lparr>MaxAttempts := attempts\<rparr>)"

text \<open>
  \<open>baseDelay * time.Duration(1 << uint(attempt))\<close>: the shift and the product are 64-bit, a
  shift by 64 or more gives 0, and \<open>delay > maxDelay\<close> compares signed values.
\<close>

definition calculateBackoff :: "nat \<Rightarrow> Duration \<Rightarrow> Duration \<Rightarrow> Duration" where
  "calculateBackoff attempt baseDelay maxDelay =
     (let delay = baseDelay * push_bit attempt 1
      in if maxDelay <s delay then maxDelay else delay)"

text \<open>
  The surroundings of one run of \<open>Do\<close>: \<open>fn attempt\<close> is what the operation returns in that
  attempt, \<open>wait attempt\<close> which case of the \<open>select\<close> after it is taken, the timer or the
  context with its error. The loop returns the error result of \<open>Do\<close> and the delays it has
  handed to \<open>time.After\<close>, in order.
\<close>

datatype wait_result = TimerFired | ContextDone error

function Do_loop ::
  "Config \<Rightarrow> (nat \<Rightarrow> error option) \<Rightarrow> (nat \<Rightarrow> wait_result) \<Rightarrow> nat \<Rightarrow> error option
     \<Rightarrow> Duration list \<Rightarrow> error option \<times> Duration list" where
  "Do_loop cfg fn wait attempt lastErr waits =
     (if int attempt < MaxAttempts cfg then
        (case fn attempt of
           None \<Rightarrow> (None, waits)
         | Some err \<Rightarrow>
             if int attempt = MaxAttempts cfg - 1
             then (Some (ErrMaxRetries (MaxAttempts cfg) err), waits)
             else
               (let delay = calculateBackoff attempt (BaseDelay cfg) (MaxDelay cfg)
                in case wait attempt of
                     TimerFired \<Rightarrow>
                       Do_loop cfg fn wait (attempt + 1) (Some err) (waits @ [delay])
                   | ContextDone e \<Rightarrow> (Some e, waits @ [delay])))
      else (lastErr, waits))"
  by pat_completeness auto
termination
  by (relation "measure (\<lambda>(cfg, fn, wait, attempt, lastErr, waits).
        nat (MaxAttempts cfg - int attempt))") auto

declare Do_loop.simps [simp del]

definition Do ::
  "(nat \<Rightarrow> error option) \<Rightarrow> (nat \<Rightarrow> wait_result) \<Rightarrow> Option list
     \<Rightarrow> error option \<times> Duration list" where
  "Do fn wait opts =
     Do_loop
       (foldl (\<lambda>cfg opt. opt cfg)
          \<lparr>MaxAttempts = 5, BaseDelay = 1 * Second, MaxDelay = 30 * Second\<rparr> opts)
       fn wait 0 None []"

text \<open>The delays of the attempts \<open>a\<close> up to \<open>b - 1\<close>.\<close>

abbreviation backoffs :: "Config \<Rightarrow> nat \<Rightarrow> nat \<Rightarrow> Duration list" where
  "backoffs cfg a b \<equiv> map (\<lambda>j. calculateBackoff j (BaseDelay cfg) (MaxDelay cfg)) [a..<b]"

section \<open>CSV processor (internal/service/csv\_processor.go)\<close>

text \<open>
  The three library functions the parser calls, for ASCII text. \<open>strings.TrimSpace\<close> drops
  leading and trailing white space; \<open>strings.ToUpper\<close> maps \<open>a..z\<close> to \<open>A..Z\<close>;
  \<open>strconv.ParseInt(s, 10, 64)\<close> accepts an optional sign and a non-empty run of decimal
  digits whose value lies in \<open>[-2^63, 2^63)\<close>, and fails otherwise (\<open>None\<close>: the parser wraps
  every failure the same way).
\<close>

definition isSpace :: "char \<Rightarrow> bool" where
  "isSpace c = (c \<in> set [CHR 0x09, CHR 0x0A, CHR 0x0B, CHR 0x0C, CHR 0x0D, CHR '' ''])"

definition TrimSpace :: "string \<Rightarrow> string" where
  "TrimSpace s = rev (dropWhile isSpace (rev (dropWhile isSpace s)))"

definition toUpperChar :: "char \<Rightarrow> char" where
  "toUpperChar c =
     (case map_of (zip ''abcdefghijklmnopqrstuvwxyz'' ''ABCDEFGHIJKLMNOPQRSTUVWXYZ'') c of
        None \<Rightarrow> c
      | Some u \<Rightarrow> u)"

definition ToUpper :: "string \<Rightarrow> string" where
  "ToUpper s = map toUpperChar s"

definition digit_value :: "char \<Rightarrow> nat option" where
  "digit_value c = map_of (zip ''0123456789'' [0, 1, 2, 3, 4, 5, 6, 7, 8, 9]) c"

fun digits_value :: "nat \<Rightarrow> string \<Rightarrow> nat option" where
  "digits_value n [] = Some n"
| "digits_value n (c # cs) =
     (case digit_value c of None \<Rightarrow> None | Some d \<Rightarrow> digits_value (n * 10 + d) cs)"

definition ParseInt :: "string \<Rightarrow> int64 option" where
  "ParseInt s =
     (case s of
        [] \<Rightarrow> None
      | c # cs \<Rightarrow>
          (let neg = (c = CHR ''-'');
               s1 = (if c = CHR ''+'' \<or> c = CHR ''-'' then cs else s)
           in if s1 = [] then None
              else
                (case digits_value 0 s1 of
                   None \<Rightarrow> None
                 | Some un \<Rightarrow>
                     if \<not> neg \<and> 2 ^ 63 \<le> un then None
                     else if neg \<and> 2 ^ 63 < un then None
                     else Some (if neg then - of_nat un else of_nat un))))"

definition parseTransaction :: "string list \<Rightarrow> int \<Rightarrow> error + Transaction" where
  "parseTransaction record lineNumber =
     (if length record \<noteq> 6 then Inl (ErrInvalidRecordFormat (length record))
      else
        (case ParseInt (TrimSpace (record ! 0)) of
           None \<Rightarrow> Inl ErrInvalidTimestamp
         | Some timestamp \<Rightarrow>
             (case ParseInt (TrimSpace (record ! 3)) of
                None \<Rightarrow> Inl ErrInvalidAmount
              | Some amount \<Rightarrow>
                  (let txType = TrimSpace (ToUpper (record ! 2)) in
                   if txType \<noteq> TransactionTypeCredit \<and> txType \<noteq> TransactionTypeDebit
                   then Inl (ErrInvalidTransactionType txType)
                   else
                     (let status = TrimSpace (ToUpper (record ! 4)) in
                      if status \<noteq> TransactionStatusSuccess
                         \<and> status \<noteq> TransactionStatusFailed
                         \<and> status \<noteq> TransactionStatusPending
                      then Inl (ErrInvalidStatus status)
                      else
                        Inr \<lparr>Timestamp = timestamp,
                             Counterparty = TrimSpace (record ! 1),
                             Type = txType,
                             Amount = amount,
                             Status = status,
                             Description = TrimSpace (record ! 5)\<rparr>)))))"

text \<open>
  \<open>fmt.Sprintf("%s-%d", uploadID, lineNumber)\<close>: the decimal rendering of the line number.
\<close>

fun decimal :: "nat \<Rightarrow> string" where
  "decimal n =
     (if n < 10 then [''0123456789'' ! n]
      else decimal (n div 10) @ [''0123456789'' ! (n mod 10)])"

definition format_int :: "int \<Rightarrow> string" where
  "format_int i = (if i < 0 then CHR ''-'' # decimal (nat (- i)) else decimal (nat i))"

definition event_id :: "string \<Rightarrow> int \<Rightarrow> string" where
  "event_id uploadID lineNumber = uploadID @ ''-'' @ format_int lineNumber"

text \<open>
  What the \<open>n\<close>-th call of \<open>csvReader.Read()\<close> returns: \<open>io.EOF\<close>, another error, or a record.
  The stream is a function of the call number, so a reader that never reports \<open>io.EOF\<close> is
  a stream too. \<open>publish\<close> is the error result of \<open>eventBus.Publish\<close> for an event (the events
  of one run have different ids), \<open>now\<close> the clock.
\<close>

datatype read_result = ReadEOF | ReadError | ReadRecord "string list"

text \<open>
  The read loop of \<open>ProcessStream\<close>. It returns the three counters and the events for which
  \<open>Publish\<close> returned nil, in order; \<open>None\<close> is a loop that never ends.
\<close>

partial_function (option) process_loop ::
  "(nat \<Rightarrow> read_result) \<Rightarrow> (Event \<Rightarrow> error option) \<Rightarrow> Time \<Rightarrow> string
     \<Rightarrow> nat \<Rightarrow> int \<Rightarrow> int \<Rightarrow> int \<Rightarrow> Event list
     \<Rightarrow> (int \<times> int \<times> int \<times> Event list) option" where
  "process_loop reads publish now uploadID i lineNumber successCount errorCount published =
     (case reads i of
        ReadEOF \<Rightarrow> Some (lineNumber, successCount, errorCount, published)
      | ReadError \<Rightarrow>
          process_loop reads publish now uploadID (Suc i) lineNumber successCount
            (errorCount + 1) published
      | ReadRecord record \<Rightarrow>
          (case parseTransaction record (lineNumber + 1) of
             Inl _ \<Rightarrow>
               process_loop reads publish now uploadID (Suc i) (lineNumber + 1) successCount
                 (errorCount + 1) published
           | Inr tx \<Rightarrow>
               (let event =
                      \<lparr>EventID = event_id uploadID (lineNumber + 1),
                       EventType = EventTypeReconciliation,
                       Payload = ReconciliationPayload
                         \<lparr>UploadID = uploadID, EvTransaction = tx,
                          EvLineNumber = lineNumber + 1\<rparr>,
                       EventTimestamp = now,
                       Retries = 0\<rparr>
                in case publish event of
                     Some _ \<Rightarrow>
                       process_loop reads publish now uploadID (Suc i) (lineNumber + 1)
                         successCount (errorCount + 1) published
                   | None \<Rightarrow>
                       process_loop reads publish now uploadID (Suc i) (lineNumber + 1)
                         (successCount + 1) errorCount (published @ [event]))))"



section \<open>Concrete inputs\<close>

text \<open>The statement of scenario S1: two SUCCESS rows, one FAILED, one PENDING.\<close>

definition s1_store :: MemoryStore where
  "s1_store = run_ops NewMemoryStore
     [OpCreateUpload 0 ''u1'',
      OpAddTransaction ''u1''
        \<lparr>Timestamp = 1674507883, Counterparty = ''JOHN DOE'', Type = ''DEBIT'',
         Amount = 250000, Status = ''SUCCESS'', Description = ''restaurant''\<rparr> 1,
      OpAddTransaction ''u1''
        \<lparr>Timestamp = 1674507884, Counterparty = ''JANE DOE'', Type = ''CREDIT'',
         Amount = 500000, Status = ''SUCCESS'', Description = ''salary''\<rparr> 2,
      OpAddTransaction ''u1''
        \<lparr>Timestamp = 1674507885, Counterparty = ''BOB SMITH'', Type = ''DEBIT'',
         Amount = 100000, Status = ''FAILED'', Description = ''invalid transaction''\<rparr> 3,
      OpAddTransaction ''u1''
        \<lparr>Timestamp = 1674507886, Counterparty = ''ALICE WONDER'', Type = ''CREDIT'',
         Amount = 300000, Status = ''PENDING'', Description = ''pending payment''\<rparr> 4]"

text \<open>An upload that already holds one consumed row.\<close>

definition dup_store :: MemoryStore where
  "dup_store = run_ops NewMemoryStore
     [OpCreateUpload 0 ''u1'',
      OpAddTransaction ''u1''
        \<lparr>Timestamp = 1674507884, Counterparty = ''JANE DOE'', Type = ''CREDIT'',
         Amount = 500000, Status = ''SUCCESS'', Description = ''salary''\<rparr> 1,
      OpIncrementProcessedRows ''u1'']"

definition fresh_store :: MemoryStore where
  "fresh_store = run_ops NewMemoryStore [OpCreateUpload 0 ''u1'']"

definition fresh_upload :: Upload where
  "fresh_upload =
     \<lparr>ID = ''u1'', UStatus = UploadStatusProcessing, ProcessedRows = 0, TotalRows = 0,
      CreatedAt = 0, CompletedAt = None\<rparr>"

definition row1 :: ReconciliationEvent where
  "row1 =
     \<lparr>UploadID = ''u1'',
      EvTransaction =
        \<lparr>Timestamp = 1674507884, Counterparty = ''JANE DOE'', Type = ''CREDIT'',
         Amount = 500000, Status = ''SUCCESS'', Description = ''salary''\<rparr>,
      EvLineNumber = 1\<rparr>"

definition event1 :: Event where
  "event1 =
     \<lparr>EventID = ''u1-1'', EventType = EventTypeReconciliation,
      Payload = ReconciliationPayload row1, EventTimestamp = 1, Retries = 0\<rparr>"

definition bob :: IssueTransaction where
  "bob =
     \<lparr>IssueTx =
        \<lparr>Timestamp = 1674507885, Counterparty = ''BOB SMITH'', Type = ''DEBIT'',
         Amount = 100000, Status = ''FAILED'', Description = ''invalid transaction''\<rparr>,
      IssueLine = 3\<rparr>"

definition alice :: IssueTransaction where
  "alice =
     \<lparr>IssueTx =
        \<lparr>Timestamp = 1674507886, Counterparty = ''ALICE WONDER'', Type = ''CREDIT'',
         Amount = 300000, Status = ''PENDING'', Description = ''pending payment''\<rparr>,
      IssueLine = 4\<rparr>"

definition negative_record :: "string list" where
  "negative_record =
     [''1674507883'', ''JOHN DOE'', ''DEBIT'', ''-250000'', ''SUCCESS'', ''restaurant'']"

definition negative_tx :: Transaction where
  "negative_tx =
     \<lparr>Timestamp = 1674507883, Counterparty = ''JOHN DOE'', Type = ''DEBIT'',
      Amount = - 250000, Status = ''SUCCESS'', Description = ''restaurant''\<rparr>"

text \<open>A stream of that one record, and the event the processor publishes for it.\<close>

definition negative_reads :: "nat \<Rightarrow> read_result" where
  "negative_reads i = (if i = 0 then ReadRecord negative_record else ReadEOF)"

definition negative_event :: Event where
  "negative_event =
     \<lparr>EventID = ''u1-1'', EventType = EventTypeReconciliation,
      Payload = ReconciliationPayload
        \<lparr>UploadID = ''u1'', EvTransaction = negative_tx, EvLineNumber = 1\<rparr>,
      EventTimestamp = 9, Retries = 0\<rparr>"






text \<open>An operation that fails in every attempt, and waits that all run to the timer.\<close>

definition always_failing :: "nat \<Rightarrow> error option" where
  "always_failing attempt = Some ErrUploadNotFound"

definition timers_fire :: "nat \<Rightarrow> wait_result" where
  "timers_fire attempt = TimerFired"

section \<open>Balance\<close>






lemma spec_balance_drops_non_success:
  "spec_balance (filter is_success txs) = spec_balance txs"
  by (simp add: spec_balance_def)

lemmas store_defs = run_ops_def NewMemoryStore_def CreateUpload_def AddTransaction_def
  stored_transactions_def MarkEventProcessed_def IncrementProcessedRows_def UpdateUploadStatus_def
lemmas const_defs = TransactionTypeCredit_def TransactionTypeDebit_def TransactionStatusSuccess_def
  TransactionStatusFailed_def TransactionStatusPending_def




section \<open>Processed-event set\<close>

lemma processedEvents_run_ops:
  "processedEvents (run_ops s ops) eventID =
     (if OpMarkEventProcessed eventID \<in> set ops then Some True else processedEvents s eventID)"
  unfolding run_ops_def
proof (induction ops arbitrary: s)
  case Nil
  show ?case by simp
next
  case (Cons op ops)
  show ?case
    by (cases op)
       (auto simp: Cons.IH CreateUpload_def UpdateUploadStatus_def IncrementProcessedRows_def
          AddTransaction_def MarkEventProcessed_def split: option.splits)
qed

lemma mark_marked:
  "fst (IsEventProcessed s eventID) \<Longrightarrow> snd (MarkEventProcessed s eventID) = s"
proof -
  assume "fst (IsEventProcessed s eventID)"
  then have "processedEvents s eventID = Some True"
    by (auto simp: IsEventProcessed_def split: option.splits)
  then have "(processedEvents s)(eventID \<mapsto> True) = processedEvents s"
    by (rule map_upd_triv)
  then show ?thesis by (simp add: MarkEventProcessed_def)
qed

text \<open>
  Claim C10. \<open>IsEventProcessed\<close> and \<open>MarkEventProcessed\<close> never return an error; in a store
  built from the empty one, \<open>IsEventProcessed id\<close> holds exactly when \<open>MarkEventProcessed id\<close>
  was among the calls; it holds right after a mark; and marking a marked id changes nothing.
\<close>

theorem processed_event_set:
  "snd (IsEventProcessed s eventID) = None
   \<and> fst (MarkEventProcessed s eventID) = None
   \<and> (fst (IsEventProcessed (run_ops NewMemoryStore ops) eventID)
        \<longleftrightarrow> OpMarkEventProcessed eventID \<in> set ops)
   \<and> fst (IsEventProcessed (snd (MarkEventProcessed s eventID)) eventID)
   \<and> (fst (IsEventProcessed s eventID) \<longrightarrow> snd (MarkEventProcessed s eventID) = s)"
  using mark_marked [of s eventID]
  by (simp add: IsEventProcessed_def MarkEventProcessed_def processedEvents_run_ops
      NewMemoryStore_def)

theorem processed_event_set_witness:
  "fst (IsEventProcessed (run_ops NewMemoryStore [OpMarkEventProcessed ''event-1'']) ''event-1'')
   \<and> snd (MarkEventProcessed (run_ops NewMemoryStore [OpMarkEventProcessed ''event-1''])
         ''event-1'')
       = run_ops NewMemoryStore [OpMarkEventProcessed ''event-1'']
   \<and> \<not> fst (IsEventProcessed (run_ops NewMemoryStore [OpCreateUpload 0 ''u1'']) ''event-1'')"
  using processed_event_set [of "run_ops NewMemoryStore [OpMarkEventProcessed ''event-1'']"
      "''event-1''" "[OpMarkEventProcessed ''event-1'']"]
    processed_event_set [of NewMemoryStore "''event-1''" "[OpCreateUpload 0 ''u1'']"]
  by simp

section \<open>CreateUpload\<close>

text \<open>
  Against claim C5 as stated: on an id that is already in the store, \<open>CreateUpload\<close>
  reports no error and replaces the row and its transactions.
\<close>

theorem CreateUpload_duplicate_counterexample:
  "uploads dup_store ''u1'' \<noteq> None
   \<and> fst (CreateUpload dup_store 5 ''u1'') = None
   \<and> stored_transactions dup_store ''u1'' \<noteq> []
   \<and> stored_transactions (snd (CreateUpload dup_store 5 ''u1'')) ''u1'' = []
   \<and> uploads (snd (CreateUpload dup_store 5 ''u1'')) ''u1'' \<noteq> uploads dup_store ''u1''"
  by (simp add: dup_store_def store_defs)

text \<open>
  Claim C5, as amended. \<open>CreateUpload\<close> never fails: for every id, in the store or not, it
  leaves that id with a fresh PROCESSING row with no processed rows and an empty transaction
  list, and leaves every other upload and the processed-event set alone.
\<close>

theorem CreateUpload_initializes:
  "fst (CreateUpload s now uploadID) = None
   \<and> uploads (snd (CreateUpload s now uploadID)) uploadID =
       Some \<lparr>ID = uploadID, UStatus = UploadStatusProcessing, ProcessedRows = 0,
             TotalRows = 0, CreatedAt = now, CompletedAt = None\<rparr>
   \<and> transactions (snd (CreateUpload s now uploadID)) uploadID = Some []
   \<and> (other \<noteq> uploadID \<longrightarrow>
        uploads (snd (CreateUpload s now uploadID)) other = uploads s other
        \<and> transactions (snd (CreateUpload s now uploadID)) other = transactions s other)
   \<and> processedEvents (snd (CreateUpload s now uploadID)) = processedEvents s
   \<and> GetUpload (snd (CreateUpload s now uploadID)) uploadID =
       Inr \<lparr>ID = uploadID, UStatus = UploadStatusProcessing, ProcessedRows = 0,
            TotalRows = 0, CreatedAt = now, CompletedAt = None\<rparr>
   \<and> GetBalance (snd (CreateUpload s now uploadID)) uploadID = Inr 0"
proof -
  let ?s' = "snd (CreateUpload s now uploadID)"
  let ?row = "\<lparr>ID = uploadID, UStatus = UploadStatusProcessing, ProcessedRows = 0,
             TotalRows = 0, CreatedAt = now, CompletedAt = None\<rparr>"
  have ok: "fst (CreateUpload s now uploadID) = None"
    by (simp add: CreateUpload_def)
  have u: "uploads ?s' uploadID = Some ?row"
    by (simp add: CreateUpload_def)
  have t: "transactions ?s' uploadID = Some []"
    by (simp add: CreateUpload_def)
  have o: "other \<noteq> uploadID \<Longrightarrow>
        uploads ?s' other = uploads s other \<and> transactions ?s' other = transactions s other"
    by (simp add: CreateUpload_def)
  have p: "processedEvents ?s' = processedEvents s"
    by (simp add: CreateUpload_def)
  have g: "GetUpload ?s' uploadID = Inr ?row"
    using u by (simp add: GetUpload_def)
  have b: "GetBalance ?s' uploadID = Inr 0"
    using u t by (simp add: GetBalance_def)
  show ?thesis using ok u t o p g b by blast
qed

theorem CreateUpload_initializes_witness:
  "''u2'' \<noteq> ''u1''
   \<and> fst (CreateUpload dup_store 5 ''u1'') = None
   \<and> transactions (snd (CreateUpload dup_store 5 ''u1'')) ''u1'' = Some []
   \<and> uploads (snd (CreateUpload dup_store 5 ''u1'')) ''u2'' = uploads dup_store ''u2''
   \<and> GetBalance dup_store ''u1'' = Inr 500000
   \<and> GetBalance (snd (CreateUpload dup_store 5 ''u1'')) ''u1'' = Inr 0"
proof -
  have b: "GetBalance dup_store ''u1'' = Inr 500000"
    by (simp add: dup_store_def store_defs GetBalance_def const_defs)
  show ?thesis
    using CreateUpload_initializes [of dup_store 5 "''u1''" "''u2''"] b by simp
qed

section \<open>Idempotent consumption\<close>

lemma Consume_processed:
  "fst (IsEventProcessed s (EventID event)) \<Longrightarrow> Consume s event = (None, s)"
  by (auto simp: Consume_def IsEventProcessed_def split: option.splits)

lemma consume_times_processed:
  "fst (IsEventProcessed s (EventID event)) \<Longrightarrow>
     consume_times n s event = (replicate n None, s)"
  by (induction n) (simp_all add: Consume_processed)

lemma Consume_fresh:
  assumes "\<not> fst (IsEventProcessed s (EventID event))"
    and "Payload event = ReconciliationPayload p"
    and "uploads s (UploadID p) = Some u"
  shows "Consume s event = (None, applied_once s event p u)"
  using assms
  by (simp add: Consume_def IsEventProcessed_def AddTransaction_def MarkEventProcessed_def
      IncrementProcessedRows_def applied_once_def split: option.splits)

lemma applied_once_processed:
  "fst (IsEventProcessed (applied_once s event p u) (EventID event))"
  by (simp add: applied_once_def IsEventProcessed_def)

text \<open>
  Claim C2. On an event whose id is in the processed-event set, \<open>Consume\<close> returns success
  and the store is unchanged; so consuming a fresh event \<open>n \<ge> 1\<close> times, for an upload that
  exists (the add and the mark then succeed), returns success every time and leaves exactly
  one appended row and one increment of \<open>ProcessedRows\<close>.
\<close>

theorem Consume_idempotent:
  "(fst (IsEventProcessed s (EventID event)) \<longrightarrow> Consume s event = (None, s))
   \<and> (\<not> fst (IsEventProcessed s (EventID event))
        \<and> Payload event = ReconciliationPayload p
        \<and> uploads s (UploadID p) = Some u \<and> 1 \<le> n \<longrightarrow>
        consume_times n s event = (replicate n None, applied_once s event p u))"
proof (intro conjI impI)
  assume "fst (IsEventProcessed s (EventID event))"
  then show "Consume s event = (None, s)" by (rule Consume_processed)
next
  assume h: "\<not> fst (IsEventProcessed s (EventID event))
        \<and> Payload event = ReconciliationPayload p
        \<and> uploads s (UploadID p) = Some u \<and> 1 \<le> n"
  then obtain m where n: "n = Suc m" by (cases n) auto
  have first: "Consume s event = (None, applied_once s event p u)"
    using h by (simp add: Consume_fresh)
  have rest: "consume_times m (applied_once s event p u) event
                = (replicate m None, applied_once s event p u)"
    by (rule consume_times_processed [OF applied_once_processed])
  show "consume_times n s event = (replicate n None, applied_once s event p u)"
    by (simp add: n first rest)
qed


theorem Consume_idempotent_witness:
  "\<not> fst (IsEventProcessed fresh_store (EventID event1))
   \<and> Payload event1 = ReconciliationPayload row1
   \<and> uploads fresh_store (UploadID row1) = Some fresh_upload
   \<and> consume_times 3 fresh_store event1
       = ([None, None, None], applied_once fresh_store event1 row1 fresh_upload)
   \<and> fst (IsEventProcessed (applied_once fresh_store event1 row1 fresh_upload) (EventID event1))
   \<and> Consume (applied_once fresh_store event1 row1 fresh_upload) event1
       = (None, applied_once fresh_store event1 row1 fresh_upload)"
  using Consume_idempotent [of fresh_store event1 row1 fresh_upload 3]
    Consume_idempotent [of "applied_once fresh_store event1 row1 fresh_upload" event1 row1
      fresh_upload 0]
  by (simp add: fresh_store_def fresh_upload_def event1_def row1_def store_defs
      IsEventProcessed_def applied_once_def numeral_3_eq_3)


section \<open>Issues and pagination\<close>

lemma issues_loop_spec:
  "issues_loop status acc txs = acc @ spec_issues status txs"
  by (induction txs arbitrary: acc)
     (auto simp: spec_issues_def is_issue_def to_issue_def Let_def split: option.splits)

lemma GetIssues_present:
  "uploads s uploadID \<noteq> None \<Longrightarrow>
     GetIssues s uploadID page perPage status =
       (case transactions s uploadID of None \<Rightarrow> Inr ([], 0)
        | Some txs \<Rightarrow> paginate (spec_issues status txs) page perPage)"
  by (auto simp: GetIssues_def issues_loop_spec split: option.splits)

lemma slice_segment:
  "slice xs lo hi = Inr ys \<Longrightarrow> \<exists>ps ss. xs = ps @ ys @ ss"
proof -
  assume a: "slice xs lo hi = Inr ys"
  then have ys: "ys = take (nat hi - nat lo) (drop (nat lo) xs)"
    by (simp add: slice_def split: if_splits)
  have "xs = take (nat lo) xs @ drop (nat lo) xs" by simp
  also have "drop (nat lo) xs = ys @ drop (nat hi - nat lo) (drop (nat lo) xs)"
    unfolding ys by (rule append_take_drop_id [symmetric])
  finally show ?thesis by blast
qed

lemma paginate_total:
  "paginate cand page perPage = Inr (items, tot) \<Longrightarrow>
     tot = length cand \<and> (\<exists>ps ss. cand = ps @ items @ ss)"
  by (auto simp: paginate_def Let_def split: if_splits sum.splits dest: slice_segment)

lemma paginate_panic:
  "paginate cand page perPage = Inl e \<Longrightarrow> e = PanicSliceBounds"
  by (auto simp: paginate_def Let_def slice_def split: if_splits sum.splits)

lemma paginate_first_page:
  assumes "1 \<le> sint perPage" and "int (length cand) \<le> sint perPage"
  shows "paginate cand 1 perPage = Inr (cand, length cand)"
proof -
  have p: "\<not> perPage <s 1" using assms(1) by (simp add: word_sless_alt)
  show ?thesis
  proof (cases "cand = []")
    case True
    then show ?thesis using p by (simp add: paginate_def word_sless_alt)
  next
    case False
    then have l: "0 < length cand" by simp
    show ?thesis using p l assms(2)
      by (auto simp: paginate_def word_sless_alt slice_def Let_def)
  qed
qed

lemma sint_word_of_int_64:
  "- (2 ^ 63) \<le> x \<Longrightarrow> x < 2 ^ 63 \<Longrightarrow> sint (word_of_int x :: 64 word) = x"
  by (simp add: signed_take_bit_int_eq_self sint_sbintrunc')

lemma sint_range_64: "- (2 ^ 63) \<le> sint (w :: 64 word) \<and> sint w < 2 ^ 63"
  using sint_ge [of w] sint_lt [of w] by simp

lemma page_start_end:
  fixes page perPage :: goint
  assumes "1 \<le> sint page" and "1 \<le> sint perPage" and "sint page * sint perPage < 2 ^ 63"
  shows "sint ((page - 1) * perPage) = (sint page - 1) * sint perPage"
    and "sint ((page - 1) * perPage + perPage) = sint page * sint perPage"
proof -
  have pk: "0 \<le> (sint page - 1) * sint perPage" using assms by simp
  have le: "(sint page - 1) * sint perPage \<le> sint page * sint perPage"
    using assms by (simp add: mult_right_mono)
  have w: "(page - 1) * perPage = word_of_int ((sint page - 1) * sint perPage)"
    by simp
  show "sint ((page - 1) * perPage) = (sint page - 1) * sint perPage"
    unfolding w using pk le assms(3) by (intro sint_word_of_int_64) auto
  have w2: "(page - 1) * perPage + perPage = word_of_int (sint page * sint perPage)"
    by (simp add: algebra_simps)
  have "0 \<le> sint page * sint perPage" using assms by simp
  then show "sint ((page - 1) * perPage + perPage) = sint page * sint perPage"
    unfolding w2 using assms(3) by (intro sint_word_of_int_64) auto
qed

lemma paginate_in_range:
  fixes page perPage :: goint
  assumes "1 \<le> sint page" and "1 \<le> sint perPage" and "sint page * sint perPage < 2 ^ 63"
  shows "paginate cand page perPage =
           Inr (take (nat (sint perPage)) (drop (nat ((sint page - 1) * sint perPage)) cand),
                length cand)"
proof -
  let ?st = "(sint page - 1) * sint perPage"
  have np: "\<not> page <s 1" "\<not> perPage <s 1" using assms by (simp_all add: word_sless_alt)
  note se = page_start_end [OF assms]
  have st0: "0 \<le> ?st" using assms by simp
  have en: "sint page * sint perPage = ?st + sint perPage" by (simp add: algebra_simps)
  show ?thesis
  proof (cases "int (length cand) \<le> ?st")
    case True
    then have "length cand \<le> nat ?st" by linarith
    then show ?thesis using np se True by (simp add: paginate_def Let_def)
  next
    case False
    show ?thesis
    proof (cases "int (length cand) < sint page * sint perPage")
      case True
      have "take (nat (int (length cand)) - nat ?st) (drop (nat ?st) cand)
              = take (nat (sint perPage)) (drop (nat ?st) cand)"
        using True en st0 by simp
      then show ?thesis using np se False True st0
        by (simp add: paginate_def Let_def slice_def)
    next
      case F2: False
      have "nat (sint page * sint perPage) - nat ?st = nat (sint perPage)"
        using en st0 assms(2) by simp
      then show ?thesis using np se False F2 st0 assms(2) en
        by (simp add: paginate_def Let_def slice_def)
    qed
  qed
qed

lemma GetIssues_stored:
  "uploads s uploadID \<noteq> None \<Longrightarrow> transactions s uploadID \<noteq> None \<Longrightarrow>
     GetIssues s uploadID page perPage status =
       paginate (spec_issues status (stored_transactions s uploadID)) page perPage"
  by (auto simp: GetIssues_def issues_loop_spec stored_transactions_def split: option.splits)

lemma GetIssues_unstored:
  "uploads s uploadID \<noteq> None \<Longrightarrow> transactions s uploadID = None \<Longrightarrow>
     GetIssues s uploadID page perPage status = Inr ([], 0)
     \<and> spec_issues status (stored_transactions s uploadID) = []"
  by (auto simp: GetIssues_def stored_transactions_def spec_issues_def split: option.splits)

text \<open>
  Claim C3. For a stored upload, whatever \<open>GetIssues\<close> returns is a run of consecutive
  entries of the issue list (the stored rows with status FAILED or PENDING, or of the filter's
  status, each with its line number, in stored order) together with the length of that list
  as total, whatever the page arguments; page 1 with a page size that covers the list is the
  whole list; and a result is returned whenever \<open>page * perPage\<close> stays below \<open>2^63\<close>.
\<close>

theorem GetIssues_issue_set:
  "(uploads s uploadID \<noteq> None
      \<and> GetIssues s uploadID page perPage status = Inr (items, tot) \<longrightarrow>
        tot = length (spec_issues status (stored_transactions s uploadID))
        \<and> (\<exists>ps ss. spec_issues status (stored_transactions s uploadID) = ps @ items @ ss))
   \<and> (uploads s uploadID \<noteq> None \<and> 1 \<le> sint perPage
      \<and> int (length (spec_issues status (stored_transactions s uploadID))) \<le> sint perPage \<longrightarrow>
        GetIssues s uploadID 1 perPage status =
          Inr (spec_issues status (stored_transactions s uploadID),
               length (spec_issues status (stored_transactions s uploadID))))
   \<and> (uploads s uploadID \<noteq> None \<and> 1 \<le> sint page \<and> 1 \<le> sint perPage
      \<and> sint page * sint perPage < 2 ^ 63 \<longrightarrow>
        (\<exists>its. GetIssues s uploadID page perPage status =
                 Inr (its, length (spec_issues status (stored_transactions s uploadID)))))
   \<and> (is_issue None t \<longleftrightarrow>
        Status (Transaction t) = TransactionStatusFailed
        \<or> Status (Transaction t) = TransactionStatusPending)
   \<and> (is_issue (Some TransactionStatusFailed) t \<longleftrightarrow>
        Status (Transaction t) = TransactionStatusFailed)
   \<and> (is_issue (Some TransactionStatusPending) t \<longleftrightarrow>
        Status (Transaction t) = TransactionStatusPending)"
proof -
  let ?cand = "spec_issues status (stored_transactions s uploadID)"
  have a: "tot = length ?cand \<and> (\<exists>ps ss. ?cand = ps @ items @ ss)"
    if "uploads s uploadID \<noteq> None" "GetIssues s uploadID page perPage status = Inr (items, tot)"
  proof (cases "transactions s uploadID")
    case None
    then show ?thesis using that GetIssues_unstored [of s uploadID page perPage status] by simp
  next
    case (Some txs)
    then show ?thesis using that paginate_total [of ?cand page perPage items tot]
      by (simp add: GetIssues_stored)
  qed
  have b: "GetIssues s uploadID 1 perPage status = Inr (?cand, length ?cand)"
    if "uploads s uploadID \<noteq> None" "1 \<le> sint perPage" "int (length ?cand) \<le> sint perPage"
  proof (cases "transactions s uploadID")
    case None
    then show ?thesis using that GetIssues_unstored [of s uploadID 1 perPage status] by simp
  next
    case (Some txs)
    then show ?thesis using that paginate_first_page [of perPage ?cand]
      by (simp add: GetIssues_stored)
  qed
  have c: "\<exists>its. GetIssues s uploadID page perPage status = Inr (its, length ?cand)"
    if "uploads s uploadID \<noteq> None" "1 \<le> sint page" "1 \<le> sint perPage"
       "sint page * sint perPage < 2 ^ 63"
  proof (cases "transactions s uploadID")
    case None
    then show ?thesis using that GetIssues_unstored [of s uploadID page perPage status] by simp
  next
    case (Some txs)
    then show ?thesis using that paginate_in_range [of page perPage ?cand]
      by (simp add: GetIssues_stored)
  qed
  have d: "is_issue None t \<longleftrightarrow>
        Status (Transaction t) = TransactionStatusFailed
        \<or> Status (Transaction t) = TransactionStatusPending"
    by (simp add: is_issue_def)
  have e: "is_issue (Some TransactionStatusFailed) t \<longleftrightarrow>
        Status (Transaction t) = TransactionStatusFailed"
    by (auto simp: is_issue_def)
  have f: "is_issue (Some TransactionStatusPending) t \<longleftrightarrow>
        Status (Transaction t) = TransactionStatusPending"
    by (auto simp: is_issue_def)
  show ?thesis using a b c d e f by blast
qed

lemma s1_issues:
  "uploads s1_store ''u1'' \<noteq> None"
  "transactions s1_store ''u1'' \<noteq> None"
  "spec_issues None (stored_transactions s1_store ''u1'') = [bob, alice]"
  "spec_issues (Some TransactionStatusFailed) (stored_transactions s1_store ''u1'') = [bob]"
  by (simp_all add: s1_store_def store_defs const_defs spec_issues_def is_issue_def to_issue_def
      bob_def alice_def)

theorem GetIssues_issue_set_witness:
  "uploads s1_store ''u1'' \<noteq> None
   \<and> 1 \<le> sint (10 :: goint)
   \<and> GetIssues s1_store ''u1'' 1 10 None = Inr ([bob, alice], 2)
   \<and> GetIssues s1_store ''u1'' 1 10 (Some TransactionStatusFailed) = Inr ([bob], 1)"
  using GetIssues_issue_set [of s1_store "''u1''" 1 10 None "[bob, alice]" 2]
    GetIssues_issue_set [of s1_store "''u1''" 1 10 "Some TransactionStatusFailed" "[bob]" 1]
  by (simp add: s1_issues)

lemma wrapped_starts:
  "(4611686018427387905 - 1) * 4 = (0 :: goint)"
  "sint ((4611686018427387905 - 1) * 2 :: goint) = - 9223372036854775808"
  "sint (4611686018427387905 :: goint) = 4611686018427387905"
  by simp_all

text \<open>
  Claim C4 at a page number whose start index wraps: with two issues stored, page
  \<open>2^62 + 1\<close> of size 4 has \<open>(page - 1) * perPage = 2^64\<close>, far beyond the total, yet the
  wrapped start is 0 and the first page comes back; with size 2 the start wraps to \<open>- 2^63\<close>
  and the slice expression panics.
\<close>

theorem GetIssues_page_overflow:
  "(2 :: int) \<le> (4611686018427387905 - 1) * 4
   \<and> GetIssues s1_store ''u1'' 4611686018427387905 4 None = Inr ([bob, alice], 2)
   \<and> GetIssues s1_store ''u1'' 4611686018427387905 2 None = Inl PanicSliceBounds"
proof -
  have p: "\<not> (4611686018427387905 :: goint) <s 1" "\<not> (4 :: goint) <s 1" "\<not> (2 :: goint) <s 1"
    by (simp_all add: word_sless_alt)
  have a: "paginate [bob, alice] 4611686018427387905 4 = Inr ([bob, alice], 2)"
    unfolding paginate_def Let_def using p wrapped_starts(1)
    by (simp add: slice_def)
  have b: "paginate [bob, alice] 4611686018427387905 2 = Inl PanicSliceBounds"
    unfolding paginate_def Let_def using p wrapped_starts(2)
    by (simp add: slice_def)
  show ?thesis using a b by (simp add: GetIssues_stored s1_issues)
qed

text \<open>Within the range of \<open>int\<close> the pages of sizes \<open>perPage\<close> tile the issue list.\<close>

lemma concat_pages:
  "concat (map (\<lambda>i. take k (drop (i * k) xs)) [0..<m]) = take (m * k) xs"
proof (induction m)
  case 0
  show ?case by simp
next
  case (Suc m)
  have e: "Suc m * k = m * k + k" by simp
  show ?case unfolding e take_add using Suc by simp
qed

lemma pages_cover:
  assumes "0 < k"
  shows "length xs \<le> ((length xs + k - 1) div k) * k"
proof -
  have "length xs + k - 1 < ((length xs + k - 1) div k) * k + k"
    using assms by (metis add.commute dividend_less_times_div mult.commute)
  then show ?thesis using assms by linarith
qed

lemma paginate_pages_concat:
  fixes perPage :: goint
  assumes k: "1 \<le> sint perPage" and n: "length cand \<le> 2 ^ 62"
  shows "concat (map (\<lambda>i. page_items (paginate cand (of_nat (Suc i)) perPage))
           [0..<(length cand + nat (sint perPage) - 1) div nat (sint perPage)]) = cand"
proof -
  let ?k = "nat (sint perPage)"
  let ?m = "(length cand + ?k - 1) div ?k"
  have k0: "0 < ?k" using k by simp
  have page: "page_items (paginate cand (of_nat (Suc i)) perPage) = take ?k (drop (i * ?k) cand)"
    if "i < ?m" for i
  proof -
    have mk: "?m * ?k \<le> length cand + ?k - 1" by simp
    have "Suc i * ?k \<le> ?m * ?k" using that by (simp add: Suc_leI mult_le_mono1 del: mult_Suc)
    then have b: "Suc i * ?k \<le> length cand + ?k - 1" using mk by linarith
    have ik: "?k < length cand" if "0 < i"
    proof (rule ccontr)
      assume "\<not> ?k < length cand"
      then have "length cand + ?k - 1 < 2 * ?k" using k0 by linarith
      then have "?m < 2" using k0 by (simp add: less_mult_imp_div_less)
      then show False using \<open>i < ?m\<close> \<open>0 < i\<close> by linarith
    qed
    have bound: "int (Suc i) * sint perPage < 2 ^ 63"
    proof (cases "i = 0")
      case True
      then show ?thesis using sint_lt [of perPage] by simp
    next
      case False
      then have "?k < length cand" using ik by simp
      then have "Suc i * ?k < 2 * length cand" using b by linarith
      also have "\<dots> \<le> 2 ^ 63" using n by simp
      finally have "int (Suc i * ?k) < 2 ^ 63" by (metis of_nat_less_numeral_power_cancel_iff)
      moreover have "int (Suc i * ?k) = int (Suc i) * sint perPage"
        using k by (simp del: mult_Suc of_nat_Suc)
      ultimately show ?thesis by (simp del: mult_Suc of_nat_Suc)
    qed
    have "int (Suc i) \<le> int (Suc i) * sint perPage" using k by (simp add: mult_le_cancel_left1)
    then have si: "int (Suc i) < 2 ^ 63" using bound by linarith
    have sp: "sint (of_nat (Suc i) :: goint) = int (Suc i)"
    proof -
      have "(of_nat (Suc i) :: goint) = word_of_int (int (Suc i))" by simp
      then show ?thesis using si sint_word_of_int_64 [of "int (Suc i)"] by simp
    qed
    have b2: "sint (of_nat (Suc i) :: goint) * sint perPage < 2 ^ 63"
      unfolding sp by (rule bound)
    have b1: "1 \<le> sint (of_nat (Suc i) :: goint)"
      unfolding sp by simp
    have "paginate cand (of_nat (Suc i)) perPage =
           Inr (take ?k (drop (nat ((sint (of_nat (Suc i) :: goint) - 1) * sint perPage)) cand),
                length cand)"
      by (rule paginate_in_range [OF b1 k b2])
    then have "paginate cand (of_nat (Suc i)) perPage =
           Inr (take ?k (drop (nat ((int (Suc i) - 1) * sint perPage)) cand), length cand)"
      unfolding sp .
    moreover have "nat ((int (Suc i) - 1) * sint perPage) = i * ?k"
      using k by (simp add: nat_mult_distrib)
    ultimately show ?thesis by (simp add: page_items_def)
  qed
  have "concat (map (\<lambda>i. page_items (paginate cand (of_nat (Suc i)) perPage)) [0..<?m])
          = concat (map (\<lambda>i. take ?k (drop (i * ?k) cand)) [0..<?m])"
    using page by (intro arg_cong [where f = concat] map_cong) auto
  also have "\<dots> = take (?m * ?k) cand" by (rule concat_pages)
  also have "\<dots> = cand" using pages_cover [OF k0, of cand] by simp
  finally show ?thesis .
qed


section \<open>Parsing a record\<close>

lemmas parse_defs = parseTransaction_def ParseInt_def TrimSpace_def ToUpper_def toUpperChar_def
  isSpace_def digit_value_def

lemma parse_negative_record: "parseTransaction negative_record 1 = Inr negative_tx"
  by (simp add: negative_record_def negative_tx_def parse_defs const_defs)

lemma negative_published:
  "process_loop negative_reads (\<lambda>_. None) 9 ''u1'' 0 0 0 0 [] = Some (1, 1, 0, [negative_event])"
  by (simp add: process_loop.simps negative_reads_def parse_negative_record negative_event_def
      event_id_def format_int_def)

lemma negative_consumed:
  "fst (Consume fresh_store negative_event) = None"
  "GetBalance fresh_store ''u1'' = Inr 0"
  "GetBalance (snd (Consume fresh_store negative_event)) ''u1'' = Inr 250000"
  by (simp_all add: Consume_def IsEventProcessed_def negative_event_def negative_tx_def
      fresh_store_def store_defs GetBalance_def const_defs)

text \<open>
  Against claim C9 as stated: a record whose amount field is \<open>-250000\<close> is accepted, the
  transaction it yields has that negative amount, the processor publishes it, and the
  consumer puts it into the ledger, where this DEBIT raises the balance from 0 to 250000.
\<close>

theorem parseTransaction_negative_counterexample:
  "parseTransaction negative_record 1 = Inr negative_tx
   \<and> ParseInt (TrimSpace (negative_record ! 3)) = Some (- 250000)
   \<and> sint (Amount negative_tx) = - 250000
   \<and> process_loop negative_reads (\<lambda>_. None) 9 ''u1'' 0 0 0 0 [] =
       Some (1, 1, 0, [negative_event])
   \<and> fst (Consume fresh_store negative_event) = None
   \<and> GetBalance fresh_store ''u1'' = Inr 0
   \<and> GetBalance (snd (Consume fresh_store negative_event)) ''u1'' = Inr 250000"
proof -
  have "ParseInt (TrimSpace (negative_record ! 3)) = Some (- 250000)"
    by (simp add: negative_record_def parse_defs)
  moreover have "sint (Amount negative_tx) = - 250000"
    by (simp add: negative_tx_def)
  ultimately show ?thesis
    using parse_negative_record negative_published negative_consumed by blast
qed

lemma ParseInt_negative:
  assumes "ds \<noteq> []" and "digits_value 0 ds = Some v" and "0 < v" and "v \<le> 2 ^ 63"
  shows "ParseInt (CHR ''-'' # ds) = Some (- of_nat v)"
    and "sint (- of_nat v :: int64) = - int v"
proof -
  show "ParseInt (CHR ''-'' # ds) = Some (- of_nat v)"
    using assms by (simp add: ParseInt_def)
  have "(- of_nat v :: int64) = word_of_int (- int v)" by simp
  moreover have "- (2 ^ 63) \<le> - int v" using assms(4)
    by (metis neg_le_iff_le of_nat_le_numeral_power_cancel_iff)
  moreover have "- int v < 2 ^ 63"
  proof -
    have "- int v \<le> 0" by simp
    also have "(0 :: int) < 2 ^ 63" by simp
    finally show ?thesis .
  qed
  ultimately show "sint (- of_nat v :: int64) = - int v"
    using sint_word_of_int_64 [of "- int v"] by simp
qed

text \<open>
  Claim C9, as amended. The parser does not look at the sign of the amount: a transaction it
  yields carries the amount exactly as \<open>ParseInt\<close> read it; a six-field record whose timestamp
  and amount parse and whose type and status are valid is accepted whatever the amount; and
  \<open>ParseInt\<close> reads a minus sign before digits as the negative value, down to \<open>-2^63\<close>.
\<close>

theorem parseTransaction_amount:
  "(parseTransaction record lineNumber = Inr tx \<longrightarrow>
      length record = 6 \<and> ParseInt (TrimSpace (record ! 3)) = Some (Amount tx))
   \<and> (length record = 6
      \<and> ParseInt (TrimSpace (record ! 0)) = Some timestamp
      \<and> ParseInt (TrimSpace (record ! 3)) = Some amount
      \<and> (TrimSpace (ToUpper (record ! 2)) = TransactionTypeCredit
          \<or> TrimSpace (ToUpper (record ! 2)) = TransactionTypeDebit)
      \<and> (TrimSpace (ToUpper (record ! 4)) = TransactionStatusSuccess
          \<or> TrimSpace (ToUpper (record ! 4)) = TransactionStatusFailed
          \<or> TrimSpace (ToUpper (record ! 4)) = TransactionStatusPending) \<longrightarrow>
      parseTransaction record lineNumber =
        Inr \<lparr>Timestamp = timestamp, Counterparty = TrimSpace (record ! 1),
             Type = TrimSpace (ToUpper (record ! 2)), Amount = amount,
             Status = TrimSpace (ToUpper (record ! 4)),
             Description = TrimSpace (record ! 5)\<rparr>)
   \<and> (ds \<noteq> [] \<and> digits_value 0 ds = Some v \<and> 0 < v \<and> v \<le> 2 ^ 63 \<longrightarrow>
        (\<exists>a. ParseInt (CHR ''-'' # ds) = Some a \<and> sint a = - int v))"
  using ParseInt_negative [of ds v]
  by (auto simp: parseTransaction_def Let_def split: option.splits if_splits)

theorem parseTransaction_amount_witness:
  "length negative_record = 6
   \<and> ParseInt (TrimSpace (negative_record ! 0)) = Some 1674507883
   \<and> ParseInt (TrimSpace (negative_record ! 3)) = Some (- 250000)
   \<and> TrimSpace (ToUpper (negative_record ! 2)) = TransactionTypeDebit
   \<and> TrimSpace (ToUpper (negative_record ! 4)) = TransactionStatusSuccess
   \<and> parseTransaction negative_record 1 = Inr negative_tx
   \<and> Amount negative_tx = - 250000
   \<and> digits_value 0 ''250000'' = Some 250000
   \<and> ParseInt ''-250000'' = Some (- 250000)
   \<and> sint (- 250000 :: int64) = - 250000"
  using parseTransaction_amount [of negative_record 1 negative_tx 1674507883 "- 250000"
      "''250000''" 250000]
  by (simp add: parse_negative_record)
     (simp add: negative_record_def negative_tx_def parse_defs const_defs)

section \<open>Processing a stream\<close>












section \<open>Publishing\<close>




section \<open>Retrying\<close>

lemma backoff_overflow:
  "sint (calculateBackoff 34 (1 * Second) (30 * Second)) = - 1266874889709551616"
  "sint (calculateBackoff 33 (1 * Second) (30 * Second)) = 30000000000"
  by (simp_all add: calculateBackoff_def Second_def word_sless_alt Let_def)

lemma Do_loop_retry:
  assumes "int attempt < MaxAttempts cfg - 1" and "fn attempt = Some err"
    and "wait attempt = TimerFired"
  shows "Do_loop cfg fn wait attempt lastErr waits =
           Do_loop cfg fn wait (Suc attempt) (Some err)
             (waits @ [calculateBackoff attempt (BaseDelay cfg) (MaxDelay cfg)])"
  using assms by (subst Do_loop.simps) simp

lemma Do_loop_advance:
  "int (attempt + d) < MaxAttempts cfg \<Longrightarrow>
   (\<forall>j. attempt \<le> j \<and> j < attempt + d \<longrightarrow> fn j \<noteq> None \<and> wait j = TimerFired) \<Longrightarrow>
     \<exists>le. Do_loop cfg fn wait attempt lastErr waits =
            Do_loop cfg fn wait (attempt + d) le (waits @ backoffs cfg attempt (attempt + d))"
proof (induction d arbitrary: attempt lastErr waits)
  case 0
  have "Do_loop cfg fn wait attempt lastErr waits =
          Do_loop cfg fn wait (attempt + 0) lastErr (waits @ backoffs cfg attempt (attempt + 0))"
    by simp
  then show ?case by (rule exI)
next
  case (Suc d)
  let ?b = "calculateBackoff attempt (BaseDelay cfg) (MaxDelay cfg)"
  have a: "int attempt < MaxAttempts cfg - 1" using Suc.prems(1) by simp
  have "fn attempt \<noteq> None \<and> wait attempt = TimerFired"
    using Suc.prems(2) by simp
  then obtain err where f: "fn attempt = Some err" and w: "wait attempt = TimerFired"
    by blast
  have b: "int (Suc attempt + d) < MaxAttempts cfg" using Suc.prems(1) by simp
  have c: "\<forall>j. Suc attempt \<le> j \<and> j < Suc attempt + d \<longrightarrow> fn j \<noteq> None \<and> wait j = TimerFired"
    using Suc.prems(2) by simp
  obtain le where ih:
    "Do_loop cfg fn wait (Suc attempt) (Some err) (waits @ [?b]) =
     Do_loop cfg fn wait (Suc attempt + d) le
        ((waits @ [?b]) @ backoffs cfg (Suc attempt) (Suc attempt + d))"
    using Suc.IH [OF b c] by blast
  have l: "(waits @ [?b]) @ backoffs cfg (Suc attempt) (attempt + Suc d)
             = waits @ backoffs cfg attempt (attempt + Suc d)"
    using upt_conv_Cons [of attempt "attempt + Suc d"] by simp
  have i: "Suc attempt + d = attempt + Suc d" by simp
  have "Do_loop cfg fn wait attempt lastErr waits =
          Do_loop cfg fn wait (attempt + Suc d) le
            (waits @ backoffs cfg attempt (attempt + Suc d))"
    using trans [OF Do_loop_retry [of attempt cfg fn err wait lastErr waits, OF a f w] ih]
    unfolding i l .
  then show ?case by (rule exI)
qed

lemma Do_loop_success:
  "int attempt < MaxAttempts cfg \<Longrightarrow> fn attempt = None \<Longrightarrow>
     Do_loop cfg fn wait attempt lastErr waits = (None, waits)"
  by (subst Do_loop.simps) simp

lemma Do_loop_exhausted:
  "int attempt = MaxAttempts cfg - 1 \<Longrightarrow> fn attempt = Some err \<Longrightarrow>
     Do_loop cfg fn wait attempt lastErr waits =
       (Some (ErrMaxRetries (MaxAttempts cfg) err), waits)"
  by (subst Do_loop.simps) simp

lemma Do_loop_cancelled:
  "int attempt < MaxAttempts cfg - 1 \<Longrightarrow> fn attempt = Some err \<Longrightarrow>
   wait attempt = ContextDone e \<Longrightarrow>
     Do_loop cfg fn wait attempt lastErr waits =
       (Some e, waits @ [calculateBackoff attempt (BaseDelay cfg) (MaxDelay cfg)])"
  by (subst Do_loop.simps) simp

lemma Do_loop_no_attempts:
  "MaxAttempts cfg \<le> 0 \<Longrightarrow> Do_loop cfg fn wait 0 None [] = (None, [])"
  by (subst Do_loop.simps) simp

text \<open>In range the delay is the capped power of two.\<close>

lemma calculateBackoff_in_range:
  assumes "0 < sint baseDelay" and "sint baseDelay * 2 ^ attempt < 2 ^ 63"
  shows "sint (calculateBackoff attempt baseDelay maxDelay)
           = min (sint baseDelay * 2 ^ attempt) (sint maxDelay)"
proof -
  have w: "baseDelay * push_bit attempt 1 = word_of_int (sint baseDelay * 2 ^ attempt)"
    by (simp add: push_bit_eq_mult)
  have lo: "- (2 ^ 63) \<le> sint baseDelay * 2 ^ attempt"
  proof -
    have "0 \<le> sint baseDelay * 2 ^ attempt" using assms(1) by simp
    moreover have "- (2 ^ 63) \<le> (0 :: int)" by simp
    ultimately show ?thesis by (rule order_trans [rotated])
  qed
  have "sint (word_of_int (sint baseDelay * 2 ^ attempt) :: int64) = sint baseDelay * 2 ^ attempt"
    by (rule sint_word_of_int_64 [OF lo assms(2)])
  then have d: "sint (baseDelay * push_bit attempt 1) = sint baseDelay * 2 ^ attempt"
    by (simp only: w)
  show ?thesis
  proof (cases "sint maxDelay < sint baseDelay * 2 ^ attempt")
    case True
    then have "maxDelay <s baseDelay * push_bit attempt 1"
      unfolding word_sless_alt d .
    then have c: "calculateBackoff attempt baseDelay maxDelay = maxDelay"
      by (simp only: calculateBackoff_def Let_def if_True)
    have e1: "sint (calculateBackoff attempt baseDelay maxDelay) = sint maxDelay"
      by (rule arg_cong [where f = sint, OF c])
    have e2: "min (sint baseDelay * 2 ^ attempt) (sint maxDelay) = sint maxDelay"
      by (rule min_absorb2 [OF less_imp_le [OF True]])
    show ?thesis unfolding e2 by (rule e1)
  next
    case False
    then have "\<not> maxDelay <s baseDelay * push_bit attempt 1"
      unfolding word_sless_alt d .
    then have c: "calculateBackoff attempt baseDelay maxDelay = baseDelay * push_bit attempt 1"
      by (simp only: calculateBackoff_def Let_def if_False)
    have e1: "sint (calculateBackoff attempt baseDelay maxDelay) = sint baseDelay * 2 ^ attempt"
      unfolding c by (rule d)
    have e2: "min (sint baseDelay * 2 ^ attempt) (sint maxDelay) = sint baseDelay * 2 ^ attempt"
      by (rule min_absorb1 [OF leI [OF False]])
    show ?thesis unfolding e2 by (rule e1)
  qed
qed

text \<open>
  How a run of \<open>Do_loop\<close> ends: at the first success, at the last attempt, or at a wait that
  the context ends. Attempt \<open>k\<close> is reached when the attempts before it failed and their waits
  ran to the timer.
\<close>

lemma Do_loop_outcome:
  assumes k: "int k < MaxAttempts cfg"
    and before: "\<forall>j<k. fn j \<noteq> None \<and> wait j = TimerFired"
  shows "(fn k = None \<longrightarrow> Do_loop cfg fn wait 0 None [] = (None, backoffs cfg 0 k))
   \<and> (fn k = Some err \<and> int k = MaxAttempts cfg - 1 \<longrightarrow>
        Do_loop cfg fn wait 0 None [] =
          (Some (ErrMaxRetries (MaxAttempts cfg) err), backoffs cfg 0 k))
   \<and> (fn k = Some err \<and> int k < MaxAttempts cfg - 1 \<and> wait k = ContextDone e \<longrightarrow>
        Do_loop cfg fn wait 0 None [] = (Some e, backoffs cfg 0 (Suc k)))"
proof -
  have k0: "int (0 + k) < MaxAttempts cfg" using k by simp
  have b0: "\<forall>j. 0 \<le> j \<and> j < 0 + k \<longrightarrow> fn j \<noteq> None \<and> wait j = TimerFired"
    using before by simp
  obtain le where adv:
    "Do_loop cfg fn wait 0 None [] = Do_loop cfg fn wait (0 + k) le ([] @ backoffs cfg 0 (0 + k))"
    using Do_loop_advance [OF k0 b0, of None "[]"] by blast
  have adv': "Do_loop cfg fn wait 0 None [] = Do_loop cfg fn wait k le (backoffs cfg 0 k)"
    using adv by simp
  have s: "fn k = None \<Longrightarrow> Do_loop cfg fn wait 0 None [] = (None, backoffs cfg 0 k)"
    unfolding adv' by (rule Do_loop_success [OF k])
  have x: "fn k = Some err \<Longrightarrow> int k = MaxAttempts cfg - 1 \<Longrightarrow>
        Do_loop cfg fn wait 0 None [] =
          (Some (ErrMaxRetries (MaxAttempts cfg) err), backoffs cfg 0 k)"
    unfolding adv' by (rule Do_loop_exhausted)
  have c: "fn k = Some err \<Longrightarrow> int k < MaxAttempts cfg - 1 \<Longrightarrow> wait k = ContextDone e \<Longrightarrow>
        Do_loop cfg fn wait 0 None [] = (Some e, backoffs cfg 0 (Suc k))"
  proof -
    assume f: "fn k = Some err" and l: "int k < MaxAttempts cfg - 1" and w: "wait k = ContextDone e"
    have "Do_loop cfg fn wait k le (backoffs cfg 0 k) =
            (Some e, backoffs cfg 0 k @ [calculateBackoff k (BaseDelay cfg) (MaxDelay cfg)])"
      using l f w by (rule Do_loop_cancelled)
    then show ?thesis unfolding adv' by simp
  qed
  show ?thesis using s x c by blast
qed

text \<open>
  Claim C6 at a configuration for which the delay overflows: with 36 attempts that all fail,
  the waits after attempts 0 to 34 are taken; after attempt 33 the delay is the cap of 30 s,
  after attempt 34 the product \<open>1 s * 2^34\<close> has wrapped to a negative duration, which is not
  above the cap and is handed to the timer as it is, where the claimed delay is 30 s.
\<close>

theorem Do_backoff_overflow:
  "Do always_failing timers_fire [WithMaxAttempts 36] =
     (Some (ErrMaxRetries 36 ErrUploadNotFound),
      map (\<lambda>j. calculateBackoff j (1 * Second) (30 * Second)) [0..<35])
   \<and> sint (calculateBackoff 33 (1 * Second) (30 * Second)) = 30000000000
   \<and> sint (calculateBackoff 34 (1 * Second) (30 * Second)) = - 1266874889709551616
   \<and> min (sint (1 * Second) * 2 ^ 34) (sint (30 * Second)) = 30000000000"
proof -
  let ?cfg = "\<lparr>MaxAttempts = 36, BaseDelay = 1 * Second, MaxDelay = 30 * Second\<rparr>"
  have k: "int 35 < MaxAttempts ?cfg" by simp
  have b: "\<forall>j<35. always_failing j \<noteq> None \<and> timers_fire j = TimerFired"
    by (simp add: always_failing_def timers_fire_def)
  have "Do_loop ?cfg always_failing timers_fire 0 None [] =
          (Some (ErrMaxRetries (MaxAttempts ?cfg) ErrUploadNotFound), backoffs ?cfg 0 35)"
  proof -
    have af: "always_failing 35 = Some ErrUploadNotFound" by (simp add: always_failing_def)
    show ?thesis using Do_loop_outcome [OF k b, of ErrUploadNotFound] af by simp
  qed
  then have d: "Do always_failing timers_fire [WithMaxAttempts 36] =
     (Some (ErrMaxRetries 36 ErrUploadNotFound),
      map (\<lambda>j. calculateBackoff j (1 * Second) (30 * Second)) [0..<35])"
    by (simp add: Do_def WithMaxAttempts_def)
  have m: "min (sint (1 * Second) * 2 ^ 34) (sint (30 * Second)) = 30000000000"
    by (simp add: Second_def)
  show ?thesis using d backoff_overflow m by blast
qed

end
